theory Spec2Isabelle
  imports Main "HOL-Library.Sublist" "HOL-Library.AList"
begin

section \<open>Nox sessions of haapi.games.rawg\<close>

text \<open>
  The development embeds \<^verbatim>\<open>noxfile.py\<close>: the helper
  \<^verbatim>\<open>activate_virtualenv_in_precommit_hooks\<close> and the sessions
  \<^verbatim>\<open>pre-commit\<close>, \<^verbatim>\<open>tests\<close>, \<^verbatim>\<open>coverage\<close>,
  \<^verbatim>\<open>docs-build\<close> and \<^verbatim>\<open>docs\<close>.

  Text is a list of characters, each read as a code point below 256; the Python string
  operations used by the file are modelled on that range. The working directory is an
  association list from relative paths to nodes. Every call that starts a command, reads
  or writes a file, removes a directory tree or schedules a session appends an event to a
  log, so that what a session did can be stated; tests on the working directory
  (\<^verbatim>\<open>is_dir\<close>, \<^verbatim>\<open>is_file\<close>, \<^verbatim>\<open>exists\<close>, \<^verbatim>\<open>iterdir\<close>, \<^verbatim>\<open>glob\<close>) leave no event.
\<close>

subsection \<open>Python string operations\<close>

text \<open>\<^verbatim>\<open>str.lower\<close>: the letters A-Z and the capital letters of the upper half
  (192 to 222, without the multiplication sign 215) move up by 32.\<close>

definition lower_char :: "char \<Rightarrow> char" where
  "lower_char c =
     (let n = (of_char c :: nat)
      in if (65 \<le> n \<and> n \<le> 90) \<or> (192 \<le> n \<and> n \<le> 222 \<and> n \<noteq> 215)
         then char_of (n + 32) else c)"

definition lower :: "string \<Rightarrow> string" where
  "lower s = map lower_char s"

text \<open>\<^verbatim>\<open>x in text\<close> on strings is the contiguous-substring test, \<^const>\<open>sublist\<close>;
  \<^verbatim>\<open>startswith\<close> is \<^const>\<open>prefix\<close> and \<^verbatim>\<open>endswith\<close> is \<^const>\<open>suffix\<close>.\<close>

text \<open>\<^verbatim>\<open>str.splitlines\<close>: a line ends at LF, CR, CR LF, VT, FF, FS, GS, RS or NEL; the
  terminators are dropped, and no empty last line is produced.\<close>

definition is_linebreak :: "char \<Rightarrow> bool" where
  "is_linebreak c \<longleftrightarrow>
     (of_char c :: nat) \<in> {0x0A, 0x0B, 0x0C, 0x0D, 0x1C, 0x1D, 0x1E, 0x85}"

fun splitlines_from :: "string \<Rightarrow> string \<Rightarrow> string list" where
  "splitlines_from cur [] = (if cur = [] then [] else [cur])"
| "splitlines_from cur [c] =
     (if is_linebreak c then [cur] else [cur @ [c]])"
| "splitlines_from cur (c # d # cs) =
     (if c = CHR 0x0D \<and> d = CHR 0x0A then cur # splitlines_from [] cs
      else if is_linebreak c then cur # splitlines_from [] (d # cs)
      else splitlines_from (cur @ [c]) (d # cs))"

definition splitlines :: "string \<Rightarrow> string list" where
  "splitlines text = splitlines_from [] text"

text \<open>\<^verbatim>\<open>sep.join(xs)\<close>.\<close>

fun join :: "string \<Rightarrow> string list \<Rightarrow> string" where
  "join sep [] = []"
| "join sep [x] = x"
| "join sep (x # y # ys) = x @ sep @ join sep (y # ys)"

text \<open>\<^verbatim>\<open>xs.insert(i, x)\<close> for \<open>i \<ge> 0\<close>: an index past the end appends.\<close>

definition insert_at :: "nat \<Rightarrow> 'a \<Rightarrow> 'a list \<Rightarrow> 'a list" where
  "insert_at i x xs = take i xs @ [x] @ drop i xs"

text \<open>\<^verbatim>\<open>repr\<close> of a string. The quote is the apostrophe, or the double quote when the
  string holds an apostrophe and no double quote. The quote and the backslash are
  escaped with a backslash, TAB, LF and CR become \<^verbatim>\<open>\t\<close>, \<^verbatim>\<open>\n\<close>, \<^verbatim>\<open>\r\<close>, and every other
  character that is not printable (below 32, 127 to 160, and 173) becomes \<^verbatim>\<open>\xNN\<close>.\<close>

definition hexdigit :: "nat \<Rightarrow> char" where
  "hexdigit n = ''0123456789abcdef'' ! (n mod 16)"

definition repr_quote :: "string \<Rightarrow> char" where
  "repr_quote s =
     (if CHR 0x27 \<in> set s \<and> CHR 0x22 \<notin> set s then CHR 0x22 else CHR 0x27)"

definition repr_char :: "char \<Rightarrow> char \<Rightarrow> string" where
  "repr_char q c =
     (let n = (of_char c :: nat)
      in if c = q \<or> c = CHR 0x5C then [CHR 0x5C, c]
         else if c = CHR 0x09 then [CHR 0x5C, CHR ''t'']
         else if c = CHR 0x0A then [CHR 0x5C, CHR ''n'']
         else if c = CHR 0x0D then [CHR 0x5C, CHR ''r'']
         else if n < 32 \<or> (127 \<le> n \<and> n \<le> 160) \<or> n = 173
           then [CHR 0x5C, CHR ''x'', hexdigit (n div 16), hexdigit n]
         else [c])"

definition repr :: "string \<Rightarrow> string" where
  "repr s = (let q = repr_quote s in [q] @ concat (map (repr_char q) s) @ [q])"

text \<open>\<^verbatim>\<open>textwrap.dedent\<close>. The lines are the pieces between line feeds. A line of blanks
  and tabs only becomes empty. The margin is computed over the leading blanks and tabs of
  the lines that hold something else: it starts as the first of them and is cut down to
  what it shares with each next one. A margin that is not empty is removed from the front
  of every line that starts with it.\<close>

definition NL :: string where
  "NL = [CHR 0x0A]"

definition is_blank :: "char \<Rightarrow> bool" where
  "is_blank c \<longleftrightarrow> c = CHR '' '' \<or> c = CHR 0x09"

fun split_from :: "char \<Rightarrow> string \<Rightarrow> string \<Rightarrow> string list" where
  "split_from sep cur [] = [cur]"
| "split_from sep cur (c # cs) =
     (if c = sep then cur # split_from sep [] cs else split_from sep (cur @ [c]) cs)"

definition text_lines :: "string \<Rightarrow> string list" where
  "text_lines text = split_from (CHR 0x0A) [] text"

definition common_margin :: "string \<Rightarrow> string \<Rightarrow> string" where
  "common_margin margin indent =
     (if prefix margin indent then margin
      else if prefix indent margin then indent
      else longest_common_prefix margin indent)"

fun margin_from :: "string option \<Rightarrow> string list \<Rightarrow> string option" where
  "margin_from m [] = m"
| "margin_from None (indent # indents) = margin_from (Some indent) indents"
| "margin_from (Some margin) (indent # indents) =
     margin_from (Some (common_margin margin indent)) indents"

definition dedent :: "string \<Rightarrow> string" where
  "dedent text =
     (let ls = map (\<lambda>l. if l \<noteq> [] \<and> list_all is_blank l then [] else l) (text_lines text);
          indents = map (takeWhile is_blank) (filter (\<lambda>l. dropWhile is_blank l \<noteq> []) ls)
      in case margin_from None indents of
           None \<Rightarrow> join NL ls
         | Some margin \<Rightarrow>
             if margin = [] then join NL ls
             else join NL (map (\<lambda>l. if prefix margin l then drop (length margin) l else l) ls))"

subsection \<open>The working directory\<close>

text \<open>A path is the list of its components below the working directory:
  \<^verbatim>\<open>Path(".git") / "hooks"\<close> is \<open>[''.git'', ''hooks'']\<close>. A regular file is either
  \<open>File t\<close>, holding the text \<open>t\<close> that \<^verbatim>\<open>read_text\<close> returns and \<^verbatim>\<open>write_text\<close> takes,
  or \<open>Undecodable\<close>, a file whose bytes do not decode in the encoding of the locale, so
  that \<^verbatim>\<open>read_text\<close> raises \<^verbatim>\<open>UnicodeDecodeError\<close> on it.\<close>

type_synonym path = "string list"

datatype node = File string | Undecodable | Dir

type_synonym filesystem = "(path \<times> node) list"

definition lookup :: "filesystem \<Rightarrow> path \<Rightarrow> node option" where
  "lookup f p = map_of f p"

definition exists :: "filesystem \<Rightarrow> path \<Rightarrow> bool" where
  "exists f p \<longleftrightarrow> lookup f p \<noteq> None"

definition is_dir :: "filesystem \<Rightarrow> path \<Rightarrow> bool" where
  "is_dir f p \<longleftrightarrow> lookup f p = Some Dir"

definition is_file :: "filesystem \<Rightarrow> path \<Rightarrow> bool" where
  "is_file f p \<longleftrightarrow>
     (case lookup f p of Some (File t) \<Rightarrow> True | Some Undecodable \<Rightarrow> True | _ \<Rightarrow> False)"

text \<open>\<^verbatim>\<open>Path.iterdir\<close> yields the names of the entries of a directory, each name once.\<close>

definition iterdir :: "filesystem \<Rightarrow> path \<Rightarrow> string list" where
  "iterdir f d =
     remdups (map (\<lambda>(p, n). last p) (filter (\<lambda>(p, n). p \<noteq> [] \<and> butlast p = d) f))"

text \<open>\<^verbatim>\<open>any(Path().glob(".coverage.*"))\<close>: some entry of the working directory has a
  name that starts with \<^verbatim>\<open>.coverage.\<close> (the match is the one of a platform that tells
  upper case from lower case in file names).\<close>

definition coverage_data_present :: "filesystem \<Rightarrow> bool" where
  "coverage_data_present f \<longleftrightarrow> list_ex (prefix ''.coverage.'') (iterdir f [])"

subsection \<open>The world: working directory and event log\<close>

text \<open>What \<^verbatim>\<open>session.install\<close> and \<^verbatim>\<open>session.run\<close> start is not part of the file: an
  external tool is a parameter that maps the command and the working directory to a
  success flag and the working directory it leaves. An \<open>Invoke\<close> event keeps the
  working directory the command was started on.\<close>

datatype command = Install "string list" | Run "string list"

datatype event =
    Invoke command filesystem
  | Notify string
  | ReadText path
  | WriteText path string
  | Rmtree path

datatype error =
    CommandFailed
  | IndexError
  | UnicodeDecodeError
  | NotADirectoryError
  | FileNotFoundError

record world =
  fs :: filesystem
  log :: "event list"

type_synonym tool = "command \<Rightarrow> filesystem \<Rightarrow> bool \<times> filesystem"

type_synonym outcome = "error option \<times> world"

text \<open>Sequencing of statements: an exception of the first ends the function.\<close>

definition andthen :: "outcome \<Rightarrow> (world \<Rightarrow> outcome) \<Rightarrow> outcome" where
  "andthen r k = (case r of (Some e, w) \<Rightarrow> (Some e, w) | (None, w) \<Rightarrow> k w)"

definition invoke :: "tool \<Rightarrow> command \<Rightarrow> world \<Rightarrow> outcome" where
  "invoke t c w =
     (let (ok, f) = t c (fs w)
      in (if ok then None else Some CommandFailed,
          \<lparr>fs = f, log = log w @ [Invoke c (fs w)]\<rparr>))"

definition session_install :: "tool \<Rightarrow> string list \<Rightarrow> world \<Rightarrow> outcome" where
  "session_install t args w = invoke t (Install args) w"

definition session_run :: "tool \<Rightarrow> string list \<Rightarrow> world \<Rightarrow> outcome" where
  "session_run t args w = invoke t (Run args) w"

definition notify :: "string \<Rightarrow> world \<Rightarrow> world" where
  "notify target w = w\<lparr>log := log w @ [Notify target]\<rparr>"

text \<open>\<^verbatim>\<open>Path.read_text\<close> reads the file and decodes it; the read is logged also when the
  decoding fails.\<close>

definition read_text :: "path \<Rightarrow> world \<Rightarrow> (error + string) \<times> world" where
  "read_text p w =
     (case lookup (fs w) p of
        Some (File t) \<Rightarrow> (Inr t, w\<lparr>log := log w @ [ReadText p]\<rparr>)
      | Some Undecodable \<Rightarrow> (Inl UnicodeDecodeError, w\<lparr>log := log w @ [ReadText p]\<rparr>)
      | _ \<Rightarrow> (Inl FileNotFoundError, w))"

definition write_text :: "path \<Rightarrow> string \<Rightarrow> world \<Rightarrow> world" where
  "write_text p t w =
     w\<lparr>fs := AList.update p (File t) (fs w), log := log w @ [WriteText p t]\<rparr>"

text \<open>\<^verbatim>\<open>shutil.rmtree\<close> removes a directory with everything below it, and raises on a
  path that is a file or is missing.\<close>

definition rmtree :: "path \<Rightarrow> world \<Rightarrow> outcome" where
  "rmtree p w =
     (case lookup (fs w) p of
        Some Dir \<Rightarrow>
          (None, \<lparr>fs = filter (\<lambda>(q, n). \<not> prefix p q) (fs w), log = log w @ [Rmtree p]\<rparr>)
      | Some (File t) \<Rightarrow> (Some NotADirectoryError, w)
      | Some Undecodable \<Rightarrow> (Some NotADirectoryError, w)
      | None \<Rightarrow> (Some FileNotFoundError, w))"

subsection \<open>Sessions\<close>

text \<open>The fields of \<^verbatim>\<open>Session\<close> that the file reads; \<open>manifest_length\<close> is
  \<^verbatim>\<open>len(session._runner.manifest)\<close>.\<close>

record session =
  posargs :: "string list"
  bin :: "string option"
  env :: "string \<rightharpoonup> string"
  interactive :: bool
  manifest_length :: nat

definition pytest_deps :: "string list" where
  "pytest_deps =
     [''pytest'', ''pygments'', ''aioresponses'', ''pytest-mock'', ''pytest-datadir'',
      ''pytest-asyncio'']"

definition base_docs_path :: string where
  "base_docs_path = ''docs''"

definition docs_build_path :: string where
  "docs_build_path = base_docs_path @ ''/_build''"

text \<open>\<^verbatim>\<open>Path(docs_build_path)\<close>.\<close>

definition build_dir :: path where
  "build_dir = [''docs'', ''_build'']"

subsection \<open>Patching the hooks installed by pre-commit\<close>

definition hookdir :: path where
  "hookdir = [''.git'', ''hooks'']"

definition DQ :: string where
  "DQ = [CHR 0x22]"

text \<open>The header is \<^verbatim>\<open>dedent\<close> of the formatted text; the backslash after the opening
  quotes joins the first line to them, and the last line holds the blanks before the
  closing quotes.
  \<^verbatim>\<open>
        header = dedent(
            f"""\
            import os
            os.environ["VIRTUAL_ENV"] = {virtualenv!r}
            os.environ["PATH"] = os.pathsep.join((
                {session.bin!r},
                os.environ.get("PATH", ""),
            ))
            """
        )
  \<close>\<close>

definition header_template :: "string \<Rightarrow> string \<Rightarrow> string" where
  "header_template virtualenv sbin =
     ''            import os'' @ NL @
     ''            os.environ['' @ DQ @ ''VIRTUAL_ENV'' @ DQ @ ''] = '' @ repr virtualenv @ NL @
     ''            os.environ['' @ DQ @ ''PATH'' @ DQ @ ''] = os.pathsep.join(('' @ NL @
     ''                '' @ repr sbin @ '','' @ NL @
     ''                os.environ.get('' @ DQ @ ''PATH'' @ DQ @ '', '' @ DQ @ DQ @ ''),'' @ NL @
     ''            ))'' @ NL @
     ''            ''"

definition header :: "string \<Rightarrow> string \<Rightarrow> string" where
  "header virtualenv sbin = dedent (header_template virtualenv sbin)"

text \<open>\<^verbatim>\<open>repr(session.bin)[1:-1]\<close>.\<close>

definition bindir_of :: "string \<Rightarrow> string" where
  "bindir_of sbin = butlast (tl (repr sbin))"

text \<open>The test on the text of a hook. \<open>caseless\<close> is the value of
  \<^verbatim>\<open>Path("A") == Path("a")\<close> on the platform; \<^verbatim>\<open>and\<close> binds tighter than \<^verbatim>\<open>or\<close>.\<close>

definition text_matches :: "bool \<Rightarrow> string \<Rightarrow> string \<Rightarrow> bool" where
  "text_matches caseless bindir text \<longleftrightarrow>
     (caseless \<and> sublist (lower bindir) (lower text)) \<or> sublist bindir text"

definition python_shebang :: "string \<Rightarrow> bool" where
  "python_shebang line \<longleftrightarrow> prefix ''#!'' line \<and> sublist ''python'' (lower line)"

text \<open>The body of the loop, for the entry \<open>name\<close> of the hook directory. \<open>None\<close> with
  the world unchanged is \<^verbatim>\<open>continue\<close>.\<close>

definition patch_hook :: "bool \<Rightarrow> string \<Rightarrow> string \<Rightarrow> string \<Rightarrow> world \<Rightarrow> outcome" where
  "patch_hook caseless virtualenv sbin name w =
     (let hook = hookdir @ [name]
      in if suffix ''.sample'' name \<or> \<not> is_file (fs w) hook then (None, w)
         else
           (case read_text hook w of
              (Inl e, w1) \<Rightarrow> (Some e, w1)
            | (Inr text, w1) \<Rightarrow>
                (let bindir = bindir_of sbin
                 in if \<not> text_matches caseless bindir text then (None, w1)
                    else
                      (case splitlines text of
                         [] \<Rightarrow> (Some IndexError, w1)
                       | line0 # rest \<Rightarrow>
                           if \<not> python_shebang line0 then (None, w1)
                           else
                             (None,
                              write_text hook
                                (join NL (insert_at 1 (header virtualenv sbin) (line0 # rest)))
                                w1)))))"

fun patch_hooks :: "bool \<Rightarrow> string \<Rightarrow> string \<Rightarrow> string list \<Rightarrow> world \<Rightarrow> outcome" where
  "patch_hooks caseless virtualenv sbin [] w = (None, w)"
| "patch_hooks caseless virtualenv sbin (name # names) w =
     andthen (patch_hook caseless virtualenv sbin name w)
       (patch_hooks caseless virtualenv sbin names)"

definition activate_virtualenv_in_precommit_hooks :: "bool \<Rightarrow> session \<Rightarrow> world \<Rightarrow> outcome" where
  "activate_virtualenv_in_precommit_hooks caseless s w =
     (case bin s of
        None \<Rightarrow> (None, w)
      | Some sbin \<Rightarrow>
          (case env s ''VIRTUAL_ENV'' of
             None \<Rightarrow> (None, w)
           | Some virtualenv \<Rightarrow>
               if \<not> is_dir (fs w) hookdir then (None, w)
               else patch_hooks caseless virtualenv sbin (iterdir (fs w) hookdir) w))"

subsection \<open>The sessions\<close>

text \<open>The packages that \<^verbatim>\<open>precommit\<close> installs, in the order of its one
  \<^verbatim>\<open>session.install\<close> call.\<close>

definition precommit_deps :: "string list" where
  "precommit_deps =
     [''black'', ''darglint'', ''flake8'', ''flake8-bandit'', ''flake8-bugbear'',
      ''flake8-docstrings'', ''flake8-rst-docstrings'', ''pep8-naming'',
      ''pre-commit'', ''pre-commit-hooks'', ''reorder-python-imports'']"

definition precommit :: "tool \<Rightarrow> bool \<Rightarrow> session \<Rightarrow> world \<Rightarrow> outcome" where
  "precommit t caseless s w =
     (let args = (if posargs s \<noteq> [] then posargs s
                  else [''run'', ''--all-files'', ''--show-diff-on-failure''])
      in andthen (session_install t precommit_deps w)
           (\<lambda>w1. andthen (session_run t (''pre-commit'' # args) w1)
              (\<lambda>w2. if args \<noteq> [] \<and> hd args = ''install''
                     then activate_virtualenv_in_precommit_hooks caseless s w2
                     else (None, w2))))"

text \<open>\<^verbatim>\<open>try\<close> ... \<^verbatim>\<open>finally\<close>: the last block runs whether the command failed or not, and the
  failure is raised again after it.\<close>

definition tests :: "tool \<Rightarrow> session \<Rightarrow> world \<Rightarrow> outcome" where
  "tests t s w =
     andthen (session_install t [''.''] w)
       (\<lambda>w1. andthen (session_install t [''coverage[toml]''] w1)
          (\<lambda>w2. andthen (session_install t pytest_deps w2)
             (\<lambda>w3. let (r, w4) =
                         session_run t
                           ([''coverage'', ''run'', ''--parallel'', ''-m'', ''pytest''] @ posargs s) w3
                    in (r, if interactive s then notify ''coverage'' w4 else w4))))"

definition coverage :: "tool \<Rightarrow> session \<Rightarrow> world \<Rightarrow> outcome" where
  "coverage t s w =
     (let has_args = (posargs s \<noteq> [] \<and> manifest_length s = 1);
          args = (if has_args then posargs s else [''report''])
      in andthen (session_install t [''coverage[toml]''] w)
           (\<lambda>w1. andthen
              (if \<not> has_args \<and> coverage_data_present (fs w1)
               then session_run t [''coverage'', ''combine''] w1 else (None, w1))
              (session_run t (''coverage'' # args))))"

definition clean_build_dir :: "world \<Rightarrow> outcome" where
  "clean_build_dir w = (if exists (fs w) build_dir then rmtree build_dir w else (None, w))"

definition docs_build :: "tool \<Rightarrow> session \<Rightarrow> world \<Rightarrow> outcome" where
  "docs_build t s w =
     (let args = (if posargs s \<noteq> [] then posargs s else [base_docs_path, docs_build_path])
      in andthen (session_install t [''.''] w)
           (\<lambda>w1. andthen (session_install t [''sphinx'', ''sphinx-rtd-theme''] w1)
              (\<lambda>w2. andthen (clean_build_dir w2)
                 (\<lambda>w3. andthen
                    (session_run t
                       [''sphinx-apidoc'', ''-o'', base_docs_path, ''-fTPM'',
                        ''--implicit-namespaces'', ''src/haapi''] w3)
                    (session_run t (''sphinx-build'' # args))))))"

definition docs :: "tool \<Rightarrow> session \<Rightarrow> world \<Rightarrow> outcome" where
  "docs t s w =
     (let args = (if posargs s \<noteq> [] then posargs s
                  else [''--open-browser'', base_docs_path, docs_build_path])
      in andthen (session_install t [''.''] w)
           (\<lambda>w1. andthen
              (session_install t [''sphinx'', ''sphinx-autobuild'', ''sphinx-rtd-theme''] w1)
              (\<lambda>w2. andthen (clean_build_dir w2)
                 (session_run t (''sphinx-autobuild'' # args)))))"

text \<open>The events a run added to the log.\<close>

definition new_events :: "world \<Rightarrow> world \<Rightarrow> event list" where
  "new_events w w' = drop (length (log w)) (log w')"

subsection \<open>Observing the log\<close>

text \<open>An event that reads or writes the file at a path, and one that writes it.\<close>

fun touches :: "path \<Rightarrow> event \<Rightarrow> bool" where
  "touches p (ReadText q) = (p = q)"
| "touches p (WriteText q t) = (p = q)"
| "touches p e = False"

fun is_write_to :: "path \<Rightarrow> event \<Rightarrow> bool" where
  "is_write_to p (WriteText q t) = (p = q)"
| "is_write_to p e = False"

fun is_write :: "event \<Rightarrow> bool" where
  "is_write (WriteText q t) = True"
| "is_write e = False"

text \<open>The commands a list of events started, in order.\<close>

fun commands_of :: "event list \<Rightarrow> command list" where
  "commands_of [] = []"
| "commands_of (Invoke c f # es) = c # commands_of es"
| "commands_of (e # es) = commands_of es"

text \<open>The file at a path has a first line, and that line is a Python shebang.\<close>

definition first_line_is_python_shebang :: "filesystem \<Rightarrow> path \<Rightarrow> bool" where
  "first_line_is_python_shebang f p \<longleftrightarrow>
     (case lookup f p of
        Some (File text) \<Rightarrow>
          (case splitlines text of [] \<Rightarrow> False | line0 # rest \<Rightarrow> python_shebang line0)
      | _ \<Rightarrow> False)"


text \<open>The command of the \<^verbatim>\<open>tests\<close> session.\<close>

definition test_command :: "session \<Rightarrow> command" where
  "test_command s = Run ([''coverage'', ''run'', ''--parallel'', ''-m'', ''pytest''] @ posargs s)"

text \<open>The commands of the \<^verbatim>\<open>coverage\<close> session after its install step, as the
  specification words them, for the working directory \<open>f\<close> the install step left: the
  coverage tool with the positional arguments when there are some and the session is the
  only one of the manifest; otherwise the coverage tool with \<^verbatim>\<open>report\<close>, after
  \<^verbatim>\<open>coverage combine\<close> when a \<^verbatim>\<open>.coverage.*\<close> file is there.\<close>

definition coverage_spec :: "session \<Rightarrow> filesystem \<Rightarrow> command list" where
  "coverage_spec s f =
     (if posargs s \<noteq> [] \<and> manifest_length s = 1 then [Run (''coverage'' # posargs s)]
      else (if coverage_data_present f then [Run [''coverage'', ''combine'']] else []) @
           [Run [''coverage'', ''report'']])"

text \<open>The first command of \<^verbatim>\<open>docs-build\<close>.\<close>

definition apidoc_command :: command where
  "apidoc_command =
     Run [''sphinx-apidoc'', ''-o'', base_docs_path, ''-fTPM'', ''--implicit-namespaces'',
          ''src/haapi'']"

text \<open>What a documentation session does before its first command: installs, and the
  removal of the build directory.\<close>

fun is_setup :: "event \<Rightarrow> bool" where
  "is_setup (Invoke (Install args) f) = True"
| "is_setup (Rmtree p) = True"
| "is_setup e = False"

text \<open>An event that starts a command.\<close>

fun is_invoke :: "event \<Rightarrow> bool" where
  "is_invoke (Invoke c f) = True"
| "is_invoke e = False"

subsection \<open>Example inputs\<close>

definition example_hook :: string where
  "example_hook = ''#!/usr/bin/env python'' @ NL @ ''exe = /v/bin/python'' @ NL"

definition example_fs :: filesystem where
  "example_fs =
     [([''.git''], Dir),
      ([''.git'', ''hooks''], Dir),
      ([''.git'', ''hooks'', ''pre-commit''], File example_hook),
      ([''.git'', ''hooks'', ''pre-push.sample''], File (''#!/v/bin/python'' @ NL)),
      ([''.git'', ''hooks'', ''commit-msg''], File (''#!/bin/sh'' @ NL @ ''exec /v/bin/pre-commit'')),
      ([''docs''], Dir),
      ([''docs'', ''_build''], Dir),
      ([''docs'', ''_build'', ''index.html''], File ''<html/>''),
      ([''.coverage.host.1''], File ''data'')]"

definition example_world :: world where
  "example_world = \<lparr>fs = example_fs, log = []\<rparr>"

definition example_session :: session where
  "example_session =
     \<lparr>posargs = [''install''], bin = Some ''/v/bin'',
      env = [''VIRTUAL_ENV'' \<mapsto> ''/v''], interactive = False, manifest_length = 1\<rparr>"

text \<open>A tool that always succeeds, and one whose \<^verbatim>\<open>session.run\<close> commands fail; both
  leave the working directory as it is.\<close>

definition tool_ok :: tool where
  "tool_ok c f = (True, f)"

definition tool_run_fails :: tool where
  "tool_run_fails c f = (case c of Install args \<Rightarrow> True | Run args \<Rightarrow> False, f)"







text \<open>A tool leaves a path absent when it is run as a given command.\<close>

definition keeps_absent :: "tool \<Rightarrow> command \<Rightarrow> path \<Rightarrow> bool" where
  "keeps_absent t c p \<longleftrightarrow> (\<forall>f. \<not> exists f p \<longrightarrow> \<not> exists (snd (t c f)) p)"

text \<open>A tool whose \<^verbatim>\<open>sphinx-apidoc\<close> makes the build directory.\<close>

definition tool_apidoc_builds :: tool where
  "tool_apidoc_builds c f = (True, if c = apidoc_command then (build_dir, Dir) # f else f)"

text \<open>The positional arguments start with \<^verbatim>\<open>install\<close>.\<close>

definition install_form :: "session \<Rightarrow> bool" where
  "install_form s \<longleftrightarrow> posargs s \<noteq> [] \<and> hd (posargs s) = ''install''"

text \<open>The two commands of \<^verbatim>\<open>precommit\<close>, one after the other, without what follows them.\<close>

definition precommit_commands :: "tool \<Rightarrow> session \<Rightarrow> world \<Rightarrow> outcome" where
  "precommit_commands t s w =
     andthen (session_install t precommit_deps w)
       (session_run t
          (''pre-commit'' #
             (if posargs s \<noteq> [] then posargs s
              else [''run'', ''--all-files'', ''--show-diff-on-failure''])))"

section \<open>Properties\<close>

subsection \<open>Basic facts\<close>

lemma new_events_append: "log w' = log w @ evs \<Longrightarrow> new_events w w' = evs"
  by (simp add: new_events_def)

lemma new_events_refl [simp]: "new_events w w = []"
  by (simp add: new_events_def)

lemma lookup_update: "lookup (AList.update p n f) q = (if q = p then Some n else lookup f q)"
  by (simp add: lookup_def update_conv')

lemma touches_same: "touches p e \<Longrightarrow> touches q e \<Longrightarrow> p = q"
  by (cases e) auto

lemma touches_other:
  "touches (hookdir @ [n]) e \<Longrightarrow> n \<noteq> name \<Longrightarrow> \<not> touches (hookdir @ [name]) e"
  using touches_same by fastforce

lemma andthen_cases:
  assumes "andthen x k = (r, w')"
  obtains (fail) e where "x = (Some e, w')" "r = Some e"
        | (ok) w1 where "x = (None, w1)" "k w1 = (r, w')"
  using assms by (auto simp: andthen_def split: prod.splits option.splits)

subsection \<open>One pass of the loop body\<close>

lemma patch_hook_skip:
  "suffix ''.sample'' name \<or> \<not> is_file (fs w) (hookdir @ [name]) \<Longrightarrow>
   patch_hook c v b name w = (None, w)"
  by (auto simp: patch_hook_def)

text \<open>The ways the body ends: the entry is skipped; the file is read and left alone (or
  the first line is missing); the file is read and written; the file does not decode.\<close>

lemma patch_hook_cases:
  assumes "patch_hook c v b name w = (r, w')"
  shows "(w' = w \<and> r = None \<and> (suffix ''.sample'' name \<or> \<not> is_file (fs w) (hookdir @ [name])))
       \<or> (\<exists>text. \<not> suffix ''.sample'' name \<and> lookup (fs w) (hookdir @ [name]) = Some (File text) \<and>
            ((fs w' = fs w \<and> log w' = log w @ [ReadText (hookdir @ [name])] \<and>
               (r = None \<and> \<not> (text_matches c (bindir_of b) text \<and>
                   (\<exists>l ls. splitlines text = l # ls \<and> python_shebang l))
                \<or> r = Some IndexError \<and> text_matches c (bindir_of b) text \<and> splitlines text = []))
             \<or> (\<exists>l ls. r = None \<and> text_matches c (bindir_of b) text \<and> splitlines text = l # ls \<and>
                  python_shebang l \<and>
                  fs w' = AList.update (hookdir @ [name]) (File (join NL (l # header v b # ls))) (fs w) \<and>
                  log w' = log w @ [ReadText (hookdir @ [name]),
                     WriteText (hookdir @ [name]) (join NL (l # header v b # ls))])))
       \<or> (\<not> suffix ''.sample'' name \<and> lookup (fs w) (hookdir @ [name]) = Some Undecodable \<and>
            fs w' = fs w \<and> log w' = log w @ [ReadText (hookdir @ [name])] \<and>
            r = Some UnicodeDecodeError)"
  using assms
  by (auto simp: patch_hook_def Let_def read_text_def write_text_def is_file_def insert_at_def
      split: if_splits option.splits node.splits list.splits)

lemma patch_hook_frame:
  assumes "patch_hook c v b name w = (r, w')"
  shows "\<exists>evs. log w' = log w @ evs \<and>
           (\<forall>e\<in>set evs. touches (hookdir @ [name]) e) \<and>
           (evs \<noteq> [] \<longrightarrow> \<not> suffix ''.sample'' name \<and> is_file (fs w) (hookdir @ [name])) \<and>
           (\<forall>q. is_file (fs w') q = is_file (fs w) q) \<and>
           (\<forall>q. q \<noteq> hookdir @ [name] \<longrightarrow> lookup (fs w') q = lookup (fs w) q)"
  using patch_hook_cases [OF assms]
  by (auto simp: lookup_update is_file_def)

subsection \<open>Entries that the loop skips\<close>

lemma patch_hooks_skipped:
  assumes "suffix ''.sample'' name \<or> \<not> is_file (fs w) (hookdir @ [name])"
    and "patch_hooks c v b names w = (r, w')"
  shows "\<exists>evs. log w' = log w @ evs \<and> (\<forall>e\<in>set evs. \<not> touches (hookdir @ [name]) e) \<and>
           lookup (fs w') (hookdir @ [name]) = lookup (fs w) (hookdir @ [name])"
  using assms
proof (induction names arbitrary: w)
  case Nil
  then show ?case by simp
next
  case (Cons n ns)
  from Cons.prems(2) have "andthen (patch_hook c v b n w) (patch_hooks c v b ns) = (r, w')"
    by simp
  then show ?case
  proof (cases rule: andthen_cases)
    case (fail e)
    show ?thesis
    proof (cases "n = name")
      case True
      with Cons.prems(1) fail show ?thesis by (simp add: patch_hook_skip)
    next
      case False
      from patch_hook_frame [OF fail(1)] obtain evs1 where
        e1: "log w' = log w @ evs1" "\<forall>e\<in>set evs1. touches (hookdir @ [n]) e"
        "\<forall>q. q \<noteq> hookdir @ [n] \<longrightarrow> lookup (fs w') q = lookup (fs w) q"
        by blast
      have "\<forall>e\<in>set evs1. \<not> touches (hookdir @ [name]) e"
        using e1(2) False touches_other by blast
      with e1 False show ?thesis by auto
    qed
  next
    case (ok w1)
    show ?thesis
    proof (cases "n = name")
      case True
      with Cons.prems(1) ok have "w1 = w" by (simp add: patch_hook_skip)
      with Cons.IH [OF Cons.prems(1)] ok show ?thesis by simp
    next
      case False
      from patch_hook_frame [OF ok(1)] obtain evs1 where
        e1: "log w1 = log w @ evs1" "\<forall>e\<in>set evs1. touches (hookdir @ [n]) e"
        "\<forall>q. is_file (fs w1) q = is_file (fs w) q"
        "\<forall>q. q \<noteq> hookdir @ [n] \<longrightarrow> lookup (fs w1) q = lookup (fs w) q"
        by blast
      from e1(3) Cons.prems(1)
      have "suffix ''.sample'' name \<or> \<not> is_file (fs w1) (hookdir @ [name])" by simp
      from Cons.IH [OF this ok(2)] obtain evs2 where
        e2: "log w' = log w1 @ evs2" "\<forall>e\<in>set evs2. \<not> touches (hookdir @ [name]) e"
        "lookup (fs w') (hookdir @ [name]) = lookup (fs w1) (hookdir @ [name])"
        by blast
      have "\<forall>e\<in>set evs1. \<not> touches (hookdir @ [name]) e"
        using e1(2) False touches_other by blast
      with e1 e2 False show ?thesis by auto
    qed
  qed
qed

text \<open>C10. An entry of the hook directory whose name ends with \<^verbatim>\<open>.sample\<close>, or that is not
  a regular file, is skipped by the helper: the helper neither reads nor writes it, and
  the entry is the same afterwards.\<close>

theorem sample_and_nonfile_entries_untouched:
  assumes "suffix ''.sample'' name \<or> \<not> is_file (fs w) (hookdir @ [name])"
  shows "(\<forall>e\<in>set (new_events w (snd (activate_virtualenv_in_precommit_hooks caseless s w))).
            \<not> touches (hookdir @ [name]) e) \<and>
         lookup (fs (snd (activate_virtualenv_in_precommit_hooks caseless s w))) (hookdir @ [name])
           = lookup (fs w) (hookdir @ [name])"
proof (cases "\<exists>b v. bin s = Some b \<and> env s ''VIRTUAL_ENV'' = Some v \<and> is_dir (fs w) hookdir")
  case True
  then obtain b v where bv: "bin s = Some b" "env s ''VIRTUAL_ENV'' = Some v"
    "is_dir (fs w) hookdir" by blast
  obtain r w' where rw: "patch_hooks caseless v b (iterdir (fs w) hookdir) w = (r, w')"
    by (cases "patch_hooks caseless v b (iterdir (fs w) hookdir) w")
  with bv have act: "activate_virtualenv_in_precommit_hooks caseless s w = (r, w')"
    by (simp add: activate_virtualenv_in_precommit_hooks_def)
  from patch_hooks_skipped [OF assms rw] obtain evs where
    "log w' = log w @ evs" "\<forall>e\<in>set evs. \<not> touches (hookdir @ [name]) e"
    "lookup (fs w') (hookdir @ [name]) = lookup (fs w) (hookdir @ [name])"
    by blast
  with act show ?thesis by (simp add: new_events_append)
next
  case False
  then have "activate_virtualenv_in_precommit_hooks caseless s w = (None, w)"
    by (auto simp: activate_virtualenv_in_precommit_hooks_def split: option.splits)
  then show ?thesis by simp
qed

theorem sample_and_nonfile_entries_untouched_witness:
  "suffix ''.sample'' ''pre-push.sample'' \<and>
   ''pre-push.sample'' \<in> set (iterdir (fs example_world) hookdir) \<and>
   list_ex is_write (log (snd (activate_virtualenv_in_precommit_hooks False example_session
      example_world))) \<and>
   \<not> list_ex (touches (hookdir @ [''pre-push.sample'']))
       (new_events example_world
          (snd (activate_virtualenv_in_precommit_hooks False example_session example_world))) \<and>
   lookup (fs (snd (activate_virtualenv_in_precommit_hooks False example_session example_world)))
      (hookdir @ [''pre-push.sample''])
     = lookup (fs example_world) (hookdir @ [''pre-push.sample''])"
proof -
  have h: "suffix ''.sample'' ''pre-push.sample''" by code_simp
  have i: "''pre-push.sample'' \<in> set (iterdir (fs example_world) hookdir)" by code_simp
  have j: "list_ex is_write (log (snd (activate_virtualenv_in_precommit_hooks False
      example_session example_world)))" by code_simp
  show ?thesis
    using h i j sample_and_nonfile_entries_untouched
      [of "''pre-push.sample''" example_world False example_session]
    by (simp add: list_ex_iff)
qed

subsection \<open>The guards of the helper\<close>

text \<open>C3, as the code has it. The helper returns at once, leaving the world as it is, when
  the session has no bin directory (\<^verbatim>\<open>session.bin is None\<close>), when \<^verbatim>\<open>VIRTUAL_ENV\<close> is not
  in the session environment, or when \<^verbatim>\<open>.git/hooks\<close> is not a directory. Whether the
  session is interactive is not looked at.\<close>

theorem helper_noop_when_guard_fails:
  assumes "bin s = None \<or> env s ''VIRTUAL_ENV'' = None \<or> \<not> is_dir (fs w) hookdir"
  shows "activate_virtualenv_in_precommit_hooks caseless s w = (None, w)"
  using assms
  by (auto simp: activate_virtualenv_in_precommit_hooks_def split: option.splits)

theorem helper_noop_when_guard_fails_witness:
  "bin (example_session\<lparr>bin := None\<rparr>) = None \<and>
   activate_virtualenv_in_precommit_hooks False (example_session\<lparr>bin := None\<rparr>) example_world
     = (None, example_world)"
  using helper_noop_when_guard_fails [of "example_session\<lparr>bin := None\<rparr>" example_world False]
  by simp

text \<open>A session that is not interactive, with a bin directory, \<^verbatim>\<open>VIRTUAL_ENV\<close> and a hook
  directory: the helper writes a hook.\<close>

theorem helper_noninteractive_counterexample:
  "\<not> interactive example_session \<and>
   list_ex (is_write_to [''.git'', ''hooks'', ''pre-commit''])
     (log (snd (activate_virtualenv_in_precommit_hooks False example_session example_world))) \<and>
   activate_virtualenv_in_precommit_hooks False example_session example_world
     \<noteq> (None, example_world)"
  by code_simp

subsection \<open>The loop over the hook directory\<close>

lemma is_write_to_touches: "is_write_to p e \<Longrightarrow> touches p e"
  by (cases e) auto

lemma patch_hook_written:
  assumes "patch_hook c v b name w = (r, w')" and "log w' = log w @ evs"
    and "WriteText p t \<in> set evs"
  shows "p = hookdir @ [name] \<and> \<not> suffix ''.sample'' name \<and>
         (\<exists>text l ls. lookup (fs w) p = Some (File text) \<and> text_matches c (bindir_of b) text \<and>
            splitlines text = l # ls \<and> python_shebang l \<and> t = join NL (l # header v b # ls))"
  using patch_hook_cases [OF assms(1)] assms(2,3)
  by auto



lemma repr_char_nonempty: "repr_char q ch \<noteq> []"
  by (simp add: repr_char_def Let_def)

lemma bindir_of_nonempty: "b \<noteq> [] \<Longrightarrow> bindir_of b \<noteq> []"
  by (cases b) (simp_all add: bindir_of_def repr_def Let_def butlast_append repr_char_nonempty)

lemma splitlines_from_nonempty: "cur \<noteq> [] \<or> s \<noteq> [] \<Longrightarrow> splitlines_from cur s \<noteq> []"
  by (induction cur s rule: splitlines_from.induct) auto

lemma splitlines_nonempty: "text \<noteq> [] \<Longrightarrow> splitlines text \<noteq> []"
  by (simp add: splitlines_def splitlines_from_nonempty)

lemma text_matches_nonempty:
  "text_matches c bd text \<Longrightarrow> bd \<noteq> [] \<Longrightarrow> text \<noteq> []"
  by (auto simp: text_matches_def lower_def)

lemma patch_hook_no_index_error:
  assumes "b \<noteq> []" and "patch_hook c v b name w = (r, w')"
  shows "r \<noteq> Some IndexError"
proof
  assume "r = Some IndexError"
  with patch_hook_cases [OF assms(2)] obtain body where
    "text_matches c (bindir_of b) body" "splitlines body = []"
    by auto
  with bindir_of_nonempty [OF assms(1)] show False
    using text_matches_nonempty splitlines_nonempty by blast
qed

lemma patch_hooks_no_index_error:
  assumes "b \<noteq> []" and "patch_hooks c v b names w = (r, w')"
  shows "r \<noteq> Some IndexError"
  using assms(2)
proof (induction names arbitrary: w)
  case Nil
  then show ?case by simp
next
  case (Cons n ns)
  from Cons.prems have "andthen (patch_hook c v b n w) (patch_hooks c v b ns) = (r, w')"
    by simp
  then show ?case
  proof (cases rule: andthen_cases)
    case (fail e)
    with patch_hook_no_index_error [OF assms(1) fail(1)] show ?thesis by simp
  next
    case (ok w1)
    with Cons.IH show ?thesis by simp
  qed
qed

lemma is_write_to_iff: "is_write_to p e \<longleftrightarrow> (\<exists>t. e = WriteText p t)"
  by (cases e) auto

lemma patch_hook_fs_cases:
  assumes "patch_hook c v b name w = (r, w')" and "log w' = log w @ evs"
  shows "fs w' = fs w \<or> (\<exists>t. WriteText (hookdir @ [name]) t \<in> set evs)"
  using patch_hook_cases [OF assms(1)] assms(2)
  by auto

lemma patch_hook_not_shebang:
  assumes "\<not> first_line_is_python_shebang (fs w) p"
    and "patch_hook c v b name w = (r, w')"
  shows "\<exists>evs. log w' = log w @ evs \<and> (\<forall>e\<in>set evs. \<not> is_write_to p e) \<and>
           lookup (fs w') p = lookup (fs w) p"
proof -
  from patch_hook_frame [OF assms(2)] obtain evs where
    e: "log w' = log w @ evs"
    "\<forall>q. q \<noteq> hookdir @ [name] \<longrightarrow> lookup (fs w') q = lookup (fs w) q"
    by blast
  have nw: "\<forall>e\<in>set evs. \<not> is_write_to p e"
  proof
    fix e assume "e \<in> set evs"
    show "\<not> is_write_to p e"
    proof
      assume "is_write_to p e"
      then obtain t where "e = WriteText p t" by (auto simp: is_write_to_iff)
      with \<open>e \<in> set evs\<close> have "WriteText p t \<in> set evs" by simp
      from patch_hook_written [OF assms(2) e(1) this] assms(1) show False
        by (auto simp: first_line_is_python_shebang_def)
    qed
  qed
  have "lookup (fs w') p = lookup (fs w) p"
  proof (cases "p = hookdir @ [name]")
    case True
    from patch_hook_fs_cases [OF assms(2) e(1)] show ?thesis
    proof
      assume "fs w' = fs w"
      then show ?thesis by simp
    next
      assume "\<exists>t. WriteText (hookdir @ [name]) t \<in> set evs"
      then obtain t where "WriteText p t \<in> set evs" using True by blast
      with nw have False by (auto simp: is_write_to_iff)
      then show ?thesis ..
    qed
  next
    case False
    with e(2) show ?thesis by simp
  qed
  with e(1) nw show ?thesis by blast
qed

lemma first_line_cong:
  "lookup f' p = lookup f p \<Longrightarrow>
   first_line_is_python_shebang f' p = first_line_is_python_shebang f p"
  by (simp add: first_line_is_python_shebang_def)

lemma patch_hooks_not_shebang:
  assumes "\<not> first_line_is_python_shebang (fs w) p"
    and "patch_hooks c v b names w = (r, w')"
  shows "\<exists>evs. log w' = log w @ evs \<and> (\<forall>e\<in>set evs. \<not> is_write_to p e) \<and>
           lookup (fs w') p = lookup (fs w) p"
  using assms
proof (induction names arbitrary: w)
  case Nil
  then have "w' = w" by simp
  then show ?case by simp
next
  case (Cons n ns)
  from Cons.prems(2) have "andthen (patch_hook c v b n w) (patch_hooks c v b ns) = (r, w')"
    by simp
  then show ?case
  proof (cases rule: andthen_cases)
    case (fail e)
    from patch_hook_not_shebang [OF Cons.prems(1) fail(1)] show ?thesis .
  next
    case (ok w1)
    from patch_hook_not_shebang [OF Cons.prems(1) ok(1)] obtain evs1 where
      e1: "log w1 = log w @ evs1" "\<forall>e\<in>set evs1. \<not> is_write_to p e"
      "lookup (fs w1) p = lookup (fs w) p"
      by blast
    from Cons.prems(1) first_line_cong [OF e1(3)]
    have "\<not> first_line_is_python_shebang (fs w1) p" by blast
    from Cons.IH [OF this ok(2)] obtain evs2 where
      e2: "log w' = log w1 @ evs2" "\<forall>e\<in>set evs2. \<not> is_write_to p e"
      "lookup (fs w') p = lookup (fs w1) p"
      by blast
    have "log w' = log w @ (evs1 @ evs2)" using e1(1) e2(1) by simp
    moreover have "\<forall>e\<in>set (evs1 @ evs2). \<not> is_write_to p e" using e1(2) e2(2) by auto
    moreover have "lookup (fs w') p = lookup (fs w) p" using e1(3) e2(3) by (rule trans [rotated])
    ultimately show ?thesis by blast
  qed
qed





subsection \<open>The helper as a whole\<close>


lemma activate_cases:
  obtains (noop) "activate_virtualenv_in_precommit_hooks c s w = (None, w)"
  | (loop) b v where "bin s = Some b" "env s ''VIRTUAL_ENV'' = Some v" "is_dir (fs w) hookdir"
      "activate_virtualenv_in_precommit_hooks c s w
         = patch_hooks c v b (iterdir (fs w) hookdir) w"
  by (cases "bin s"; cases "env s ''VIRTUAL_ENV''"; cases "is_dir (fs w) hookdir")
     (auto simp: activate_virtualenv_in_precommit_hooks_def)

subsection \<open>Hooks without a Python shebang\<close>

text \<open>C4. For a file of the hook directory whose first line is not a Python shebang (it
  does not start with \<^verbatim>\<open>#!\<close>, or does not contain \<^verbatim>\<open>python\<close> in any case, or the file has no
  first line, or the entry is no regular file), the helper writes nothing to that file,
  and the file is the same afterwards.\<close>

theorem non_python_hooks_never_written:
  assumes "\<not> first_line_is_python_shebang (fs w) (hookdir @ [name])"
  shows "(\<forall>e\<in>set (new_events w (snd (activate_virtualenv_in_precommit_hooks caseless s w))).
            \<not> is_write_to (hookdir @ [name]) e) \<and>
         lookup (fs (snd (activate_virtualenv_in_precommit_hooks caseless s w))) (hookdir @ [name])
           = lookup (fs w) (hookdir @ [name])"
proof (cases rule: activate_cases [of caseless s w])
  case noop
  then show ?thesis by simp
next
  case (loop b v)
  obtain r w' where rw: "patch_hooks caseless v b (iterdir (fs w) hookdir) w = (r, w')"
    by (cases "patch_hooks caseless v b (iterdir (fs w) hookdir) w")
  from patch_hooks_not_shebang [OF assms rw] obtain evs where
    "log w' = log w @ evs" "\<forall>e\<in>set evs. \<not> is_write_to (hookdir @ [name]) e"
    "lookup (fs w') (hookdir @ [name]) = lookup (fs w) (hookdir @ [name])"
    by blast
  with loop(4) rw show ?thesis by (simp add: new_events_append)
qed

theorem non_python_hooks_never_written_witness:
  "\<not> first_line_is_python_shebang (fs example_world) (hookdir @ [''commit-msg'']) \<and>
   list_ex (touches (hookdir @ [''commit-msg'']))
      (log (snd (activate_virtualenv_in_precommit_hooks False example_session example_world))) \<and>
   \<not> list_ex (is_write_to (hookdir @ [''commit-msg'']))
      (new_events example_world
         (snd (activate_virtualenv_in_precommit_hooks False example_session example_world))) \<and>
   lookup (fs (snd (activate_virtualenv_in_precommit_hooks False example_session example_world)))
      (hookdir @ [''commit-msg''])
     = lookup (fs example_world) (hookdir @ [''commit-msg''])"
proof -
  have h: "\<not> first_line_is_python_shebang (fs example_world) (hookdir @ [''commit-msg''])"
    by code_simp
  have i: "list_ex (touches (hookdir @ [''commit-msg'']))
      (log (snd (activate_virtualenv_in_precommit_hooks False example_session example_world)))"
    by code_simp
  show ?thesis
    using h i non_python_hooks_never_written [OF h, of False example_session]
    by (simp add: list_ex_iff)
qed

subsection \<open>The first line is there when it is read\<close>

text \<open>C9. When the bin directory of the session is a non-empty string, every text that
  passes the match on the bin directory has at least one line, so the read of
  \<^verbatim>\<open>lines[0]\<close> is in bounds, and the helper never ends with an \<^verbatim>\<open>IndexError\<close>.\<close>

theorem first_line_access_in_bounds:
  assumes "bin s = Some b" and "b \<noteq> []"
  shows "(\<forall>body. text_matches caseless (bindir_of b) body \<longrightarrow> splitlines body \<noteq> []) \<and>
         fst (activate_virtualenv_in_precommit_hooks caseless s w) \<noteq> Some IndexError"
proof
  show "\<forall>body. text_matches caseless (bindir_of b) body \<longrightarrow> splitlines body \<noteq> []"
    using bindir_of_nonempty [OF assms(2)] text_matches_nonempty splitlines_nonempty by blast
next
  show "fst (activate_virtualenv_in_precommit_hooks caseless s w) \<noteq> Some IndexError"
  proof (cases rule: activate_cases [of caseless s w])
    case noop
    then show ?thesis by simp
  next
    case (loop b' v)
    with assms(1) have "b' = b" by simp
    obtain r w' where rw: "patch_hooks caseless v b (iterdir (fs w) hookdir) w = (r, w')"
      by (cases "patch_hooks caseless v b (iterdir (fs w) hookdir) w")
    from patch_hooks_no_index_error [OF assms(2) rw] have "r \<noteq> Some IndexError" .
    with loop(4) rw \<open>b' = b\<close> show ?thesis by simp
  qed
qed

theorem first_line_access_in_bounds_witness:
  "bin example_session = Some ''/v/bin'' \<and> ''/v/bin'' \<noteq> [] \<and>
   text_matches False (bindir_of ''/v/bin'') ''exec /v/bin/python'' \<and>
   splitlines ''exec /v/bin/python'' \<noteq> [] \<and>
   fst (activate_virtualenv_in_precommit_hooks False example_session example_world)
     \<noteq> Some IndexError"
proof -
  have h: "bin example_session = Some ''/v/bin''" by code_simp
  have n: "''/v/bin'' \<noteq> []" by simp
  have m: "text_matches False (bindir_of ''/v/bin'') ''exec /v/bin/python''" by code_simp
  show ?thesis
    using h n m first_line_access_in_bounds [OF h n, of False example_world]
    by blast
qed

text \<open>The bin directory has to be non-empty for this: with an empty one every text
  matches, and an empty hook file has no first line.\<close>

lemma empty_bin_raises_index_error:
  "fst (activate_virtualenv_in_precommit_hooks False (example_session\<lparr>bin := Some ''''\<rparr>)
     \<lparr>fs = [([''.git'', ''hooks''], Dir), ([''.git'', ''hooks'', ''pre-commit''], File '''')],
      log = []\<rparr>) = Some IndexError"
  by code_simp

subsection \<open>The bin directory as \<^verbatim>\<open>repr\<close> shows it\<close>




lemma bindir_of_backslash:
  "bindir_of [CHR ''a'', CHR 0x5C, CHR ''b''] = [CHR ''a'', CHR 0x5C, CHR 0x5C, CHR ''b'']"
  by code_simp

subsection \<open>The tests session\<close>

lemma invoke_eq:
  "invoke t c w = (if fst (t c (fs w)) then None else Some CommandFailed,
                   \<lparr>fs = snd (t c (fs w)), log = log w @ [Invoke c (fs w)]\<rparr>)"
  by (simp add: invoke_def split: prod.splits)

lemma new_events_eq [simp]:
  "new_events w \<lparr>fs = f, log = log w @ evs\<rparr> = evs"
  by (simp add: new_events_def)

lemma tests_cases:
  obtains (setup_failed)
      "\<forall>e\<in>set (new_events w (snd (tests t s w))). \<exists>args f. e = Invoke (Install args) f"
  | (ran) pre f where
      "new_events w (snd (tests t s w))
         = pre @ Invoke (test_command s) f # (if interactive s then [Notify ''coverage''] else [])"
      "\<forall>e\<in>set pre. \<exists>args f. e = Invoke (Install args) f"
      "fst (tests t s w) = (if fst (t (test_command s) f) then None else Some CommandFailed)"
proof (cases "fst (t (Install [''.'']) (fs w))")
  case False
  then have "new_events w (snd (tests t s w)) = [Invoke (Install [''.'']) (fs w)]"
    by (simp add: tests_def session_install_def invoke_eq andthen_def)
  then show ?thesis using setup_failed by simp
next
  case a: True
  let ?f1 = "snd (t (Install [''.'']) (fs w))"
  show ?thesis
  proof (cases "fst (t (Install [''coverage[toml]'']) ?f1)")
    case False
    with a have "new_events w (snd (tests t s w))
        = [Invoke (Install [''.'']) (fs w), Invoke (Install [''coverage[toml]'']) ?f1]"
      by (simp add: tests_def session_install_def invoke_eq andthen_def)
    then show ?thesis using setup_failed by simp
  next
    case b: True
    let ?f2 = "snd (t (Install [''coverage[toml]'']) ?f1)"
    show ?thesis
    proof (cases "fst (t (Install pytest_deps) ?f2)")
      case False
      with a b have "new_events w (snd (tests t s w))
          = [Invoke (Install [''.'']) (fs w), Invoke (Install [''coverage[toml]'']) ?f1,
             Invoke (Install pytest_deps) ?f2]"
        by (simp add: tests_def session_install_def invoke_eq andthen_def)
      then show ?thesis using setup_failed by simp
    next
      case c: True
      let ?f3 = "snd (t (Install pytest_deps) ?f2)"
      from a b c have "new_events w (snd (tests t s w))
          = [Invoke (Install [''.'']) (fs w), Invoke (Install [''coverage[toml]'']) ?f1,
             Invoke (Install pytest_deps) ?f2] @
            Invoke (test_command s) ?f3 # (if interactive s then [Notify ''coverage''] else [])"
        by (simp add: tests_def session_install_def session_run_def invoke_eq andthen_def
            notify_def test_command_def)
      moreover from a b c
      have "fst (tests t s w) = (if fst (t (test_command s) ?f3) then None else Some CommandFailed)"
        by (simp add: tests_def session_install_def session_run_def invoke_eq andthen_def
            notify_def test_command_def)
      ultimately show ?thesis using ran [of "[Invoke (Install [''.'']) (fs w),
          Invoke (Install [''coverage[toml]'']) ?f1, Invoke (Install pytest_deps) ?f2]" ?f3]
        by simp
    qed
  qed
qed

lemma install_not_test: "(\<forall>e\<in>set pre. \<exists>args f. e = Invoke (Install args) f) \<Longrightarrow>
    Invoke (test_command s) f \<notin> set pre \<and> Notify n \<notin> set pre"
  by (auto simp: test_command_def)

text \<open>C1, as the code has it. In an interactive session, once the test command has been
  started, \<^verbatim>\<open>session.notify("coverage")\<close> is the next and last thing the session does,
  whether the command succeeded or failed; the failure is still the result of the session.
  In a session that is not interactive nothing is scheduled.\<close>

theorem tests_notifies_coverage_when_interactive:
  "(interactive s \<longrightarrow>
      (\<forall>f. Invoke (test_command s) f \<in> set (new_events w (snd (tests t s w))) \<longrightarrow>
         (\<exists>pre. new_events w (snd (tests t s w))
             = pre @ [Invoke (test_command s) f, Notify ''coverage'']) \<and>
         (fst (tests t s w) = None \<longleftrightarrow> fst (t (test_command s) f)))) \<and>
   (\<not> interactive s \<longrightarrow> Notify ''coverage'' \<notin> set (new_events w (snd (tests t s w))))"
proof (cases rule: tests_cases [of w t s])
  case setup_failed
  from install_not_test [OF this] show ?thesis by blast
next
  case (ran pre f0)
  note np = install_not_test [OF ran(2)]
  show ?thesis
  proof (intro conjI impI allI)
    fix f assume i: "interactive s"
      and m: "Invoke (test_command s) f \<in> set (new_events w (snd (tests t s w)))"
    from m ran(1) i np have "f = f0" by auto
    with ran(1) i show "\<exists>pre. new_events w (snd (tests t s w))
             = pre @ [Invoke (test_command s) f, Notify ''coverage'']" by simp
    from ran(3) \<open>f = f0\<close> show "fst (tests t s w) = None \<longleftrightarrow> fst (t (test_command s) f)"
      by simp
  next
    assume "\<not> interactive s"
    with ran(1) np show "Notify ''coverage'' \<notin> set (new_events w (snd (tests t s w)))"
      by (simp add: test_command_def)
  qed
qed

theorem tests_notifies_coverage_when_interactive_witness:
  "interactive (example_session\<lparr>interactive := True\<rparr>) \<and>
   Invoke (test_command (example_session\<lparr>interactive := True\<rparr>)) example_fs
     \<in> set (new_events example_world
          (snd (tests tool_run_fails (example_session\<lparr>interactive := True\<rparr>) example_world))) \<and>
   fst (tests tool_run_fails (example_session\<lparr>interactive := True\<rparr>) example_world)
     = Some CommandFailed \<and>
   last (new_events example_world
          (snd (tests tool_run_fails (example_session\<lparr>interactive := True\<rparr>) example_world)))
     = Notify ''coverage''"
proof -
  let ?s = "example_session\<lparr>interactive := True\<rparr>"
  have i: "interactive ?s" by simp
  have m: "Invoke (test_command ?s) example_fs
     \<in> set (new_events example_world (snd (tests tool_run_fails ?s example_world)))"
    by code_simp
  have f: "fst (tests tool_run_fails ?s example_world) = Some CommandFailed" by code_simp
  from tests_notifies_coverage_when_interactive [of ?s example_world tool_run_fails] i m
  obtain pre where "new_events example_world (snd (tests tool_run_fails ?s example_world))
      = pre @ [Invoke (test_command ?s) example_fs, Notify ''coverage'']"
    by blast
  then have "last (new_events example_world (snd (tests tool_run_fails ?s example_world)))
      = Notify ''coverage''" by simp
  with i m f show ?thesis by (intro conjI) assumption+
qed

text \<open>A session that is not interactive: the test command runs, with success or with
  failure, and no coverage session is scheduled.\<close>

theorem tests_noninteractive_counterexample:
  "\<not> interactive example_session \<and>
   Invoke (test_command example_session) example_fs
     \<in> set (log (snd (tests tool_ok example_session example_world))) \<and>
   Notify ''coverage'' \<notin> set (log (snd (tests tool_ok example_session example_world))) \<and>
   Invoke (test_command example_session) example_fs
     \<in> set (log (snd (tests tool_run_fails example_session example_world))) \<and>
   Notify ''coverage'' \<notin> set (log (snd (tests tool_run_fails example_session example_world)))"
  by code_simp

subsection \<open>The coverage session\<close>

text \<open>C2. The commands the coverage session starts are, in order, a beginning of: the
  install step, then the commands of \<^const>\<open>coverage_spec\<close>; and they are all of these
  when the install step succeeds and, where it is run, \<^verbatim>\<open>coverage combine\<close> succeeds.\<close>

theorem coverage_runs_posargs_or_report:
  "prefix (commands_of (new_events w (snd (coverage t s w))))
     (Install [''coverage[toml]''] #
        coverage_spec s (snd (t (Install [''coverage[toml]'']) (fs w)))) \<and>
   (fst (t (Install [''coverage[toml]'']) (fs w)) \<and>
    (\<not> (posargs s \<noteq> [] \<and> manifest_length s = 1) \<and>
       coverage_data_present (snd (t (Install [''coverage[toml]'']) (fs w))) \<longrightarrow>
     fst (t (Run [''coverage'', ''combine'']) (snd (t (Install [''coverage[toml]'']) (fs w))))) \<longrightarrow>
    commands_of (new_events w (snd (coverage t s w)))
      = Install [''coverage[toml]''] #
          coverage_spec s (snd (t (Install [''coverage[toml]'']) (fs w))))"
  by (simp add: coverage_def coverage_spec_def session_install_def session_run_def invoke_eq
      andthen_def Let_def new_events_def)


theorem coverage_runs_posargs_or_report_witness:
  "fst (tool_ok (Install [''coverage[toml]'']) (fs example_world)) \<and>
   fst (tool_ok (Run [''coverage'', ''combine''])
          (snd (tool_ok (Install [''coverage[toml]'']) (fs example_world)))) \<and>
   commands_of (new_events example_world
       (snd (coverage tool_ok (example_session\<lparr>posargs := []\<rparr>) example_world)))
     = [Install [''coverage[toml]''], Run [''coverage'', ''combine''],
        Run [''coverage'', ''report'']] \<and>
   commands_of (new_events example_world
       (snd (coverage tool_ok (example_session\<lparr>posargs := [''html'']\<rparr>) example_world)))
     = [Install [''coverage[toml]''], Run [''coverage'', ''html'']] \<and>
   commands_of (new_events example_world
       (snd (coverage tool_ok
          (example_session\<lparr>posargs := [''html''], manifest_length := 2\<rparr>) example_world)))
     = [Install [''coverage[toml]''], Run [''coverage'', ''combine''],
        Run [''coverage'', ''report'']]"
proof -
  have a: "fst (tool_ok (Install [''coverage[toml]'']) (fs example_world))"
    by (simp add: tool_ok_def)
  have b: "fst (tool_ok (Run [''coverage'', ''combine''])
          (snd (tool_ok (Install [''coverage[toml]'']) (fs example_world))))"
    by (simp add: tool_ok_def)
  have p: "coverage_data_present (snd (tool_ok (Install [''coverage[toml]'']) (fs example_world)))"
    by code_simp
  have c1: "coverage_spec (example_session\<lparr>posargs := []\<rparr>)
      (snd (tool_ok (Install [''coverage[toml]'']) (fs example_world)))
      = [Run [''coverage'', ''combine''], Run [''coverage'', ''report'']]"
    using p by (simp add: coverage_spec_def)
  have c2: "coverage_spec (example_session\<lparr>posargs := [''html'']\<rparr>)
      (snd (tool_ok (Install [''coverage[toml]'']) (fs example_world)))
      = [Run [''coverage'', ''html'']]"
    by (simp add: coverage_spec_def example_session_def)
  have c3: "coverage_spec (example_session\<lparr>posargs := [''html''], manifest_length := 2\<rparr>)
      (snd (tool_ok (Install [''coverage[toml]'']) (fs example_world)))
      = [Run [''coverage'', ''combine''], Run [''coverage'', ''report'']]"
    using p by (simp add: coverage_spec_def)
  from a b c1
    coverage_runs_posargs_or_report [of example_world tool_ok "example_session\<lparr>posargs := []\<rparr>"]
  have r1: "commands_of (new_events example_world
       (snd (coverage tool_ok (example_session\<lparr>posargs := []\<rparr>) example_world)))
     = [Install [''coverage[toml]''], Run [''coverage'', ''combine''],
        Run [''coverage'', ''report'']]" by simp
  from a b c2
    coverage_runs_posargs_or_report
      [of example_world tool_ok "example_session\<lparr>posargs := [''html'']\<rparr>"]
  have r2: "commands_of (new_events example_world
       (snd (coverage tool_ok (example_session\<lparr>posargs := [''html'']\<rparr>) example_world)))
     = [Install [''coverage[toml]''], Run [''coverage'', ''html'']]" by simp
  from a b c3
    coverage_runs_posargs_or_report
      [of example_world tool_ok "example_session\<lparr>posargs := [''html''], manifest_length := 2\<rparr>"]
  have r3: "commands_of (new_events example_world
       (snd (coverage tool_ok
          (example_session\<lparr>posargs := [''html''], manifest_length := 2\<rparr>) example_world)))
     = [Install [''coverage[toml]''], Run [''coverage'', ''combine''],
        Run [''coverage'', ''report'']]" by simp
  from a b r1 r2 r3 show ?thesis by (intro conjI) assumption+
qed

subsection \<open>The documentation sessions\<close>

lemma map_of_filter_key_None:
  "\<not> P p \<Longrightarrow> map_of (filter (\<lambda>(q, n). P q) f) p = None"
  by (induction f) auto

lemma rmtree_absent: "rmtree p w = (None, w') \<Longrightarrow> \<not> exists (fs w') p"
  by (auto simp: rmtree_def exists_def lookup_def map_of_filter_key_None
      split: option.splits node.splits)

lemma clean_build_dir_absent:
  "clean_build_dir w = (None, w') \<Longrightarrow> \<not> exists (fs w') build_dir"
  by (auto simp: clean_build_dir_def rmtree_absent split: if_splits)

lemma clean_build_dir_log:
  "clean_build_dir w = (r, w') \<Longrightarrow>
   log w' = log w \<or> log w' = log w @ [Rmtree build_dir]"
  by (auto simp: clean_build_dir_def rmtree_def split: if_splits option.splits node.splits)

lemma clean_build_dir_cases:
  obtains (failed) e where "clean_build_dir w = (Some e, w)"
  | (cleaned) w' evs where "clean_build_dir w = (None, w')" "log w' = log w @ evs"
      "\<forall>e\<in>set evs. is_setup e" "\<not> exists (fs w') build_dir"
proof (cases "clean_build_dir w")
  case (Pair r w')
  show ?thesis
  proof (cases r)
    case None
    with Pair clean_build_dir_absent have a: "\<not> exists (fs w') build_dir" by blast
    from clean_build_dir_log [OF Pair] have "\<exists>evs. log w' = log w @ evs \<and> (\<forall>e\<in>set evs. is_setup e)"
    proof
      assume "log w' = log w"
      then have "log w' = log w @ [] \<and> (\<forall>e\<in>set []. is_setup e)" by simp
      then show ?thesis by blast
    next
      assume "log w' = log w @ [Rmtree build_dir]"
      then have "log w' = log w @ [Rmtree build_dir] \<and> (\<forall>e\<in>set [Rmtree build_dir]. is_setup e)"
        by simp
      then show ?thesis by blast
    qed
    with Pair None a cleaned show ?thesis by blast
  next
    case (Some e)
    with Pair have "w' = w"
      by (auto simp: clean_build_dir_def rmtree_def split: if_splits option.splits node.splits)
    with Pair Some failed show ?thesis by blast
  qed
qed

lemma setup_not_run: "\<forall>e\<in>set pre. is_setup e \<Longrightarrow> Invoke (Run args) f \<notin> set pre"
  by auto

lemma docs_build_cases:
  obtains (prepared) "\<forall>e\<in>set (new_events w (snd (docs_build t s w))). is_setup e"
  | (ran) pre f where
      "new_events w (snd (docs_build t s w))
         = pre @ Invoke apidoc_command f #
             (if fst (t apidoc_command f)
              then [Invoke (Run (''sphinx-build'' #
                      (if posargs s \<noteq> [] then posargs s else [base_docs_path, docs_build_path])))
                      (snd (t apidoc_command f))]
              else [])"
      "\<forall>e\<in>set pre. is_setup e" "\<not> exists f build_dir"
proof -
  let ?e1 = "Invoke (Install [''.'']) (fs w)"
  let ?f1 = "snd (t (Install [''.'']) (fs w))"
  let ?e2 = "Invoke (Install [''sphinx'', ''sphinx-rtd-theme'']) ?f1"
  let ?f2 = "snd (t (Install [''sphinx'', ''sphinx-rtd-theme'']) ?f1)"
  let ?w2 = "\<lparr>fs = ?f2, log = log w @ [?e1, ?e2]\<rparr>"
  show ?thesis
  proof (cases "fst (t (Install [''.'']) (fs w))")
    case False
    then have "new_events w (snd (docs_build t s w)) = [?e1]"
      by (simp add: docs_build_def session_install_def invoke_eq andthen_def Let_def)
    then show ?thesis using prepared by simp
  next
    case a: True
    show ?thesis
    proof (cases "fst (t (Install [''sphinx'', ''sphinx-rtd-theme'']) ?f1)")
      case False
      with a have "new_events w (snd (docs_build t s w)) = [?e1, ?e2]"
        by (simp add: docs_build_def session_install_def invoke_eq andthen_def Let_def)
      then show ?thesis using prepared by simp
    next
      case b: True
      show ?thesis
      proof (cases rule: clean_build_dir_cases [of ?w2])
        case (failed e)
        with a b have "new_events w (snd (docs_build t s w)) = [?e1, ?e2]"
          by (simp add: docs_build_def session_install_def invoke_eq andthen_def Let_def)
        then show ?thesis using prepared by simp
      next
        case (cleaned w3 evs)
        from cleaned(2) have l3: "log w3 = log w @ ([?e1, ?e2] @ evs)" by simp
        from a b cleaned(1) l3
        have "log (snd (docs_build t s w))
            = log w @ (([?e1, ?e2] @ evs) @ Invoke apidoc_command (fs w3) #
             (if fst (t apidoc_command (fs w3))
              then [Invoke (Run (''sphinx-build'' #
                      (if posargs s \<noteq> [] then posargs s else [base_docs_path, docs_build_path])))
                      (snd (t apidoc_command (fs w3)))]
              else []))"
          by (simp add: docs_build_def session_install_def session_run_def invoke_eq andthen_def Let_def
              apidoc_command_def)
        from new_events_append [OF this] cleaned(3,4) ran [of "[?e1, ?e2] @ evs" "fs w3"]
        show ?thesis by simp
      qed
    qed
  qed
qed

lemma docs_cases:
  obtains (prepared) "\<forall>e\<in>set (new_events w (snd (docs t s w))). is_setup e"
  | (ran) pre f where
      "new_events w (snd (docs t s w))
         = pre @ [Invoke (Run (''sphinx-autobuild'' #
             (if posargs s \<noteq> [] then posargs s
              else [''--open-browser'', base_docs_path, docs_build_path]))) f]"
      "\<forall>e\<in>set pre. is_setup e" "\<not> exists f build_dir"
proof -
  let ?e1 = "Invoke (Install [''.'']) (fs w)"
  let ?f1 = "snd (t (Install [''.'']) (fs w))"
  let ?e2 = "Invoke (Install [''sphinx'', ''sphinx-autobuild'', ''sphinx-rtd-theme'']) ?f1"
  let ?f2 = "snd (t (Install [''sphinx'', ''sphinx-autobuild'', ''sphinx-rtd-theme'']) ?f1)"
  let ?w2 = "\<lparr>fs = ?f2, log = log w @ [?e1, ?e2]\<rparr>"
  show ?thesis
  proof (cases "fst (t (Install [''.'']) (fs w))")
    case False
    then have "new_events w (snd (docs t s w)) = [?e1]"
      by (simp add: docs_def session_install_def invoke_eq andthen_def Let_def)
    then show ?thesis using prepared by simp
  next
    case a: True
    show ?thesis
    proof (cases "fst (t (Install [''sphinx'', ''sphinx-autobuild'', ''sphinx-rtd-theme'']) ?f1)")
      case False
      with a have "new_events w (snd (docs t s w)) = [?e1, ?e2]"
        by (simp add: docs_def session_install_def invoke_eq andthen_def Let_def)
      then show ?thesis using prepared by simp
    next
      case b: True
      show ?thesis
      proof (cases rule: clean_build_dir_cases [of ?w2])
        case (failed e)
        with a b have "new_events w (snd (docs t s w)) = [?e1, ?e2]"
          by (simp add: docs_def session_install_def invoke_eq andthen_def Let_def)
        then show ?thesis using prepared by simp
      next
        case (cleaned w3 evs)
        from cleaned(2) have l3: "log w3 = log w @ ([?e1, ?e2] @ evs)" by simp
        from a b cleaned(1) l3
        have "log (snd (docs t s w))
            = log w @ (([?e1, ?e2] @ evs) @ [Invoke (Run (''sphinx-autobuild'' #
             (if posargs s \<noteq> [] then posargs s
              else [''--open-browser'', base_docs_path, docs_build_path]))) (fs w3)])"
          by (simp add: docs_def session_install_def session_run_def invoke_eq andthen_def Let_def)
        from new_events_append [OF this] cleaned(3,4) ran [of "[?e1, ?e2] @ evs" "fs w3"]
        show ?thesis by simp
      qed
    qed
  qed
qed

subsection \<open>The pre-commit session\<close>

lemma activate_interactive:
  "activate_virtualenv_in_precommit_hooks c (s\<lparr>interactive := i\<rparr>) w
     = activate_virtualenv_in_precommit_hooks c s w"
  by (simp add: activate_virtualenv_in_precommit_hooks_def split: option.splits)

subsection \<open>The text of the header\<close>









subsection \<open>Hooks that are patched\<close>

text \<open>A read that fails to decode ends the helper. It returns normally when the bin
  directory is not the empty string and no entry that it reads is undecodable.\<close>

lemma patch_hook_undecodable:
  assumes "patch_hook c v b name w = (r, w')" and "lookup (fs w') q = Some Undecodable"
  shows "lookup (fs w) q = Some Undecodable"
  using patch_hook_cases [OF assms(1)] assms(2)
  by (auto simp: lookup_update split: if_splits)

lemma patch_hook_ok:
  assumes "b \<noteq> []"
    and "lookup (fs w) (hookdir @ [name]) = Some Undecodable \<longrightarrow> suffix ''.sample'' name"
    and "patch_hook c v b name w = (r, w')"
  shows "r = None"
proof -
  from patch_hook_no_index_error [OF assms(1,3)] have "r \<noteq> Some IndexError" .
  with patch_hook_cases [OF assms(3)] assms(2) show ?thesis by auto
qed

lemma patch_hooks_ok:
  assumes "b \<noteq> []"
    and "\<forall>n. lookup (fs w) (hookdir @ [n]) = Some Undecodable \<longrightarrow> suffix ''.sample'' n"
    and "patch_hooks c v b names w = (r, w')"
  shows "r = None"
  using assms(2,3)
proof (induction names arbitrary: w)
  case Nil
  then show ?case by simp
next
  case (Cons n ns)
  from Cons.prems(2) have "andthen (patch_hook c v b n w) (patch_hooks c v b ns) = (r, w')"
    by simp
  then show ?case
  proof (cases rule: andthen_cases)
    case (fail e)
    from Cons.prems(1) have "lookup (fs w) (hookdir @ [n]) = Some Undecodable \<longrightarrow> suffix ''.sample'' n"
      by blast
    from patch_hook_ok [OF assms(1) this fail(1)] have False by simp
    then show ?thesis ..
  next
    case (ok w1)
    have "\<forall>m. lookup (fs w1) (hookdir @ [m]) = Some Undecodable \<longrightarrow> suffix ''.sample'' m"
      using patch_hook_undecodable [OF ok(1)] Cons.prems(1) by blast
    from Cons.IH [OF this ok(2)] show ?thesis .
  qed
qed

lemma activate_returns_normally:
  assumes "bin s \<noteq> Some []"
    and "\<forall>n. lookup (fs w) (hookdir @ [n]) = Some Undecodable \<longrightarrow> suffix ''.sample'' n"
  shows "fst (activate_virtualenv_in_precommit_hooks c s w) = None"
proof (cases rule: activate_cases [of c s w])
  case noop
  then show ?thesis by simp
next
  case (loop b v)
  with assms(1) have b: "b \<noteq> []" by auto
  obtain r w' where rw: "patch_hooks c v b (iterdir (fs w) hookdir) w = (r, w')"
    by (cases "patch_hooks c v b (iterdir (fs w) hookdir) w")
  from patch_hooks_ok [OF b assms(2) rw] loop(4) rw show ?thesis by simp
qed





subsection \<open>The match on the bin directory\<close>





text \<open>C5, as the code has it. In \<^verbatim>\<open>docs-build\<close> and in \<^verbatim>\<open>docs\<close> the build directory
  \<^verbatim>\<open>docs/_build\<close> is absent from the working directory on which the first documentation
  command (\<^verbatim>\<open>sphinx-apidoc\<close>, \<^verbatim>\<open>sphinx-autobuild\<close>) is started. \<^verbatim>\<open>sphinx-build\<close> is started on
  the working directory that \<^verbatim>\<open>sphinx-apidoc\<close> left, the session doing nothing in between;
  so the build directory is absent there too when \<^verbatim>\<open>sphinx-apidoc\<close> does not make it.\<close>

theorem build_dir_absent_before_docs_commands:
  "(\<forall>args f. Invoke (Run (''sphinx-apidoc'' # args)) f
        \<in> set (new_events w (snd (docs_build t s w))) \<longrightarrow> \<not> exists f build_dir) \<and>
   (\<forall>args f. Invoke (Run (''sphinx-build'' # args)) f
        \<in> set (new_events w (snd (docs_build t s w))) \<longrightarrow>
      (\<exists>f0. Invoke apidoc_command f0 \<in> set (new_events w (snd (docs_build t s w))) \<and>
         \<not> exists f0 build_dir \<and> f = snd (t apidoc_command f0))) \<and>
   (\<forall>args f. Invoke (Run (''sphinx-autobuild'' # args)) f
        \<in> set (new_events w (snd (docs t s w))) \<longrightarrow> \<not> exists f build_dir) \<and>
   (keeps_absent t apidoc_command build_dir \<longrightarrow>
      (\<forall>args f. Invoke (Run (''sphinx-build'' # args)) f
          \<in> set (new_events w (snd (docs_build t s w))) \<longrightarrow> \<not> exists f build_dir))"
proof (intro conjI allI impI)
  fix args f
  assume m: "Invoke (Run (''sphinx-apidoc'' # args)) f \<in> set (new_events w (snd (docs_build t s w)))"
  show "\<not> exists f build_dir"
  proof (cases rule: docs_build_cases [of w t s])
    case prepared
    from setup_not_run [OF this] m show ?thesis by blast
  next
    case (ran pre f0)
    from setup_not_run [OF ran(2)] m ran(1) have "f = f0"
      by (auto simp: apidoc_command_def split: if_splits)
    with ran(3) show ?thesis by simp
  qed
next
  fix args f
  assume m: "Invoke (Run (''sphinx-build'' # args)) f \<in> set (new_events w (snd (docs_build t s w)))"
  show "\<exists>f0. Invoke apidoc_command f0 \<in> set (new_events w (snd (docs_build t s w))) \<and>
         \<not> exists f0 build_dir \<and> f = snd (t apidoc_command f0)"
  proof (cases rule: docs_build_cases [of w t s])
    case prepared
    from setup_not_run [OF this] m show ?thesis by blast
  next
    case (ran pre f0)
    from setup_not_run [OF ran(2)] m ran(1) have "f = snd (t apidoc_command f0)"
      by (auto simp: apidoc_command_def split: if_splits)
    moreover from ran(1)
    have "Invoke apidoc_command f0 \<in> set (new_events w (snd (docs_build t s w)))" by simp
    ultimately show ?thesis using ran(3) by blast
  qed
next
  fix args f
  assume m: "Invoke (Run (''sphinx-autobuild'' # args)) f \<in> set (new_events w (snd (docs t s w)))"
  show "\<not> exists f build_dir"
  proof (cases rule: docs_cases [of w t s])
    case prepared
    from setup_not_run [OF this] m show ?thesis by blast
  next
    case (ran pre f0)
    from setup_not_run [OF ran(2)] m ran(1) have "f = f0" by auto
    with ran(3) show ?thesis by simp
  qed
next
  fix args f
  assume k: "keeps_absent t apidoc_command build_dir"
    and m: "Invoke (Run (''sphinx-build'' # args)) f \<in> set (new_events w (snd (docs_build t s w)))"
  show "\<not> exists f build_dir"
  proof (cases rule: docs_build_cases [of w t s])
    case prepared
    from setup_not_run [OF this] m show ?thesis by blast
  next
    case (ran pre f0)
    from setup_not_run [OF ran(2)] m ran(1) have "f = snd (t apidoc_command f0)"
      by (auto simp: apidoc_command_def split: if_splits)
    with k ran(3) show ?thesis by (simp add: keeps_absent_def)
  qed
qed

theorem build_dir_absent_before_docs_commands_witness:
  "exists (fs example_world) build_dir \<and>
   Invoke apidoc_command (fs (snd (clean_build_dir example_world)))
     \<in> set (new_events example_world
          (snd (docs_build tool_ok (example_session\<lparr>posargs := []\<rparr>) example_world))) \<and>
   Invoke (Run [''sphinx-build'', ''docs'', ''docs/_build''])
       (fs (snd (clean_build_dir example_world)))
     \<in> set (new_events example_world
          (snd (docs_build tool_ok (example_session\<lparr>posargs := []\<rparr>) example_world))) \<and>
   Invoke (Run [''sphinx-autobuild'', ''--open-browser'', ''docs'', ''docs/_build''])
       (fs (snd (clean_build_dir example_world)))
     \<in> set (new_events example_world
          (snd (docs tool_ok (example_session\<lparr>posargs := []\<rparr>) example_world))) \<and>
   keeps_absent tool_ok apidoc_command build_dir \<and>
   \<not> exists (fs (snd (clean_build_dir example_world))) build_dir"
proof -
  let ?s = "example_session\<lparr>posargs := []\<rparr>"
  let ?f = "fs (snd (clean_build_dir example_world))"
  have e: "exists (fs example_world) build_dir" by code_simp
  have a: "Invoke (Run [''sphinx-apidoc'', ''-o'', ''docs'', ''-fTPM'', ''--implicit-namespaces'',
          ''src/haapi'']) ?f
     \<in> set (new_events example_world (snd (docs_build tool_ok ?s example_world)))"
    by code_simp
  have a': "Invoke apidoc_command ?f
     \<in> set (new_events example_world (snd (docs_build tool_ok ?s example_world)))"
    by code_simp
  have b: "Invoke (Run [''sphinx-build'', ''docs'', ''docs/_build'']) ?f
     \<in> set (new_events example_world (snd (docs_build tool_ok ?s example_world)))"
    by code_simp
  have c: "Invoke (Run [''sphinx-autobuild'', ''--open-browser'', ''docs'', ''docs/_build'']) ?f
     \<in> set (new_events example_world (snd (docs tool_ok ?s example_world)))"
    by code_simp
  have k: "keeps_absent tool_ok apidoc_command build_dir"
    by (simp add: keeps_absent_def tool_ok_def)
  note t = build_dir_absent_before_docs_commands [of example_world tool_ok ?s]
  from t a have n: "\<not> exists ?f build_dir" by blast
  from t c have n': "\<not> exists ?f build_dir" by blast
  from t k b have n'': "\<not> exists ?f build_dir" by blast
  from e a' b c k n'' show ?thesis by (intro conjI) assumption+
qed

text \<open>With a \<^verbatim>\<open>sphinx-apidoc\<close> that makes the build directory, \<^verbatim>\<open>sphinx-build\<close> is started
  with the build directory there.\<close>

theorem sphinx_build_counterexample:
  "Invoke (Run [''sphinx-build'', ''docs'', ''docs/_build''])
       ((build_dir, Dir) # fs (snd (clean_build_dir example_world)))
     \<in> set (log (snd (docs_build tool_apidoc_builds (example_session\<lparr>posargs := []\<rparr>)
          example_world))) \<and>
   exists ((build_dir, Dir) # fs (snd (clean_build_dir example_world))) build_dir"
  by code_simp

lemma precommit_commands_events:
  "list_all is_invoke (new_events w (snd (precommit_commands t s w)))"
  by (simp add: precommit_commands_def session_install_def session_run_def invoke_eq andthen_def
      new_events_def)

lemma is_invoke_not_write: "list_all is_invoke evs \<Longrightarrow> \<not> list_ex is_write evs"
proof (induction evs)
  case Nil
  then show ?case by simp
next
  case (Cons e evs)
  then show ?case by (cases e) auto
qed

text \<open>C6, as the code has it. Whether the session is interactive makes no difference to
  \<^verbatim>\<open>precommit\<close>. The session runs the helper exactly when its first positional argument is
  \<^verbatim>\<open>install\<close> and its two commands succeed: then it ends with the helper, run on the world
  the commands left. In every other case, also when a command of an \<^verbatim>\<open>install\<close> run fails,
  the session is its two commands and nothing more: it only starts commands and writes no
  file itself. The commands succeed exactly when the tool succeeds on both.\<close>

theorem precommit_patches_hooks_iff_install:
  "precommit t c (s\<lparr>interactive := i\<rparr>) w = precommit t c s w \<and>
   (install_form s \<and> fst (precommit_commands t s w) = None \<longrightarrow>
      precommit t c s w
        = activate_virtualenv_in_precommit_hooks c s (snd (precommit_commands t s w))) \<and>
   (\<not> (install_form s \<and> fst (precommit_commands t s w) = None) \<longrightarrow>
      precommit t c s w = precommit_commands t s w \<and>
      list_all is_invoke (new_events w (snd (precommit t c s w))) \<and>
      \<not> list_ex is_write (new_events w (snd (precommit t c s w)))) \<and>
   (fst (precommit_commands t s w) = None \<longleftrightarrow>
      fst (t (Install precommit_deps) (fs w)) \<and>
      fst (t (Run (''pre-commit'' #
                (if posargs s \<noteq> [] then posargs s
                 else [''run'', ''--all-files'', ''--show-diff-on-failure''])))
             (snd (t (Install precommit_deps) (fs w))))) \<and>
   snd (precommit_commands t s w) =
     (if fst (t (Install precommit_deps) (fs w))
      then \<lparr>fs = snd (t (Run (''pre-commit'' #
                       (if posargs s \<noteq> [] then posargs s
                        else [''run'', ''--all-files'', ''--show-diff-on-failure''])))
                    (snd (t (Install precommit_deps) (fs w)))),
            log = log w @
              [Invoke (Install precommit_deps) (fs w),
               Invoke (Run (''pre-commit'' #
                       (if posargs s \<noteq> [] then posargs s
                        else [''run'', ''--all-files'', ''--show-diff-on-failure''])))
                 (snd (t (Install precommit_deps) (fs w)))]\<rparr>
      else \<lparr>fs = snd (t (Install precommit_deps) (fs w)),
            log = log w @ [Invoke (Install precommit_deps) (fs w)]\<rparr>)"
proof (intro conjI impI)
  show "precommit t c (s\<lparr>interactive := i\<rparr>) w = precommit t c s w"
    by (simp add: precommit_def activate_interactive Let_def cong: if_cong)
next
  assume "install_form s \<and> fst (precommit_commands t s w) = None"
  then show "precommit t c s w
        = activate_virtualenv_in_precommit_hooks c s (snd (precommit_commands t s w))"
    by (auto simp: precommit_def precommit_commands_def install_form_def Let_def andthen_def
        split: prod.splits option.splits)
next
  assume n: "\<not> (install_form s \<and> fst (precommit_commands t s w) = None)"
  then show eq: "precommit t c s w = precommit_commands t s w"
    by (auto simp: precommit_def precommit_commands_def install_form_def Let_def andthen_def
        split: prod.splits option.splits)
  from precommit_commands_events [of w t s] eq
  show inv: "list_all is_invoke (new_events w (snd (precommit t c s w)))" by simp
  from is_invoke_not_write [OF inv]
  show "\<not> list_ex is_write (new_events w (snd (precommit t c s w)))" .
next
  show "fst (precommit_commands t s w) = None \<longleftrightarrow>
      fst (t (Install precommit_deps) (fs w)) \<and>
      fst (t (Run (''pre-commit'' #
                (if posargs s \<noteq> [] then posargs s
                 else [''run'', ''--all-files'', ''--show-diff-on-failure''])))
             (snd (t (Install precommit_deps) (fs w))))"
    by (simp add: precommit_commands_def session_install_def session_run_def invoke_eq
        andthen_def)
next
  show "snd (precommit_commands t s w) =
     (if fst (t (Install precommit_deps) (fs w))
      then \<lparr>fs = snd (t (Run (''pre-commit'' #
                       (if posargs s \<noteq> [] then posargs s
                        else [''run'', ''--all-files'', ''--show-diff-on-failure''])))
                    (snd (t (Install precommit_deps) (fs w)))),
            log = log w @
              [Invoke (Install precommit_deps) (fs w),
               Invoke (Run (''pre-commit'' #
                       (if posargs s \<noteq> [] then posargs s
                        else [''run'', ''--all-files'', ''--show-diff-on-failure''])))
                 (snd (t (Install precommit_deps) (fs w)))]\<rparr>
      else \<lparr>fs = snd (t (Install precommit_deps) (fs w)),
            log = log w @ [Invoke (Install precommit_deps) (fs w)]\<rparr>)"
    by (simp add: precommit_commands_def session_install_def session_run_def invoke_eq
        andthen_def)
qed

text \<open>A session that is not interactive, run as \<^verbatim>\<open>pre-commit install\<close>, rewrites a hook.\<close>

theorem precommit_noninteractive_counterexample:
  "\<not> interactive example_session \<and>
   hd (posargs example_session) = ''install'' \<and>
   list_ex (is_write_to [''.git'', ''hooks'', ''pre-commit''])
     (log (snd (precommit tool_ok False example_session example_world)))"
  by code_simp

theorem precommit_patches_hooks_iff_install_witness:
  "install_form example_session \<and>
   fst (precommit_commands tool_ok example_session example_world) = None \<and>
   precommit tool_ok False example_session example_world
     = activate_virtualenv_in_precommit_hooks False example_session
         (snd (precommit_commands tool_ok example_session example_world)) \<and>
   list_ex is_write
     (new_events example_world (snd (precommit tool_ok False example_session example_world))) \<and>
   precommit tool_ok False (example_session\<lparr>interactive := True\<rparr>) example_world
     = precommit tool_ok False example_session example_world \<and>
   fst (precommit_commands tool_run_fails example_session example_world) = Some CommandFailed \<and>
   precommit tool_run_fails False example_session example_world
     = precommit_commands tool_run_fails example_session example_world \<and>
   \<not> list_ex is_write
     (new_events example_world
        (snd (precommit tool_run_fails False example_session example_world))) \<and>
   \<not> install_form (example_session\<lparr>posargs := []\<rparr>) \<and>
   precommit tool_ok False (example_session\<lparr>posargs := []\<rparr>) example_world
     = precommit_commands tool_ok (example_session\<lparr>posargs := []\<rparr>) example_world \<and>
   list_all is_invoke
     (new_events example_world
        (snd (precommit tool_ok False (example_session\<lparr>posargs := []\<rparr>) example_world))) \<and>
   \<not> list_ex is_write
     (new_events example_world
        (snd (precommit tool_ok False (example_session\<lparr>posargs := []\<rparr>) example_world)))"
proof -
  let ?s2 = "example_session\<lparr>posargs := []\<rparr>"
  have a: "install_form example_session" by code_simp
  have b: "fst (precommit_commands tool_ok example_session example_world) = None" by code_simp
  have e: "list_ex is_write
     (new_events example_world (snd (precommit tool_ok False example_session example_world)))"
    by code_simp
  have f: "fst (precommit_commands tool_run_fails example_session example_world)
      = Some CommandFailed" by code_simp
  have g: "\<not> install_form ?s2" by (simp add: install_form_def)
  note t1 = precommit_patches_hooks_iff_install
    [where t = tool_ok and c = False and s = example_session and i = True and w = example_world]
  note t2 = precommit_patches_hooks_iff_install
    [where t = tool_run_fails and c = False and s = example_session and i = True
       and w = example_world]
  note t3 = precommit_patches_hooks_iff_install
    [where t = tool_ok and c = False and s = ?s2 and i = True and w = example_world]
  from t1 a b have r1: "precommit tool_ok False example_session example_world
     = activate_virtualenv_in_precommit_hooks False example_session
         (snd (precommit_commands tool_ok example_session example_world))" by blast
  from t1 have r2: "precommit tool_ok False (example_session\<lparr>interactive := True\<rparr>) example_world
     = precommit tool_ok False example_session example_world" by blast
  from f have nf: "\<not> (install_form example_session \<and>
      fst (precommit_commands tool_run_fails example_session example_world) = None)" by simp
  from t2 nf have r3: "precommit tool_run_fails False example_session example_world
     = precommit_commands tool_run_fails example_session example_world"
    and r4: "\<not> list_ex is_write
     (new_events example_world
        (snd (precommit tool_run_fails False example_session example_world)))"
    by blast+
  from g have ng: "\<not> (install_form ?s2 \<and>
      fst (precommit_commands tool_ok ?s2 example_world) = None)" by simp
  from t3 ng have r5: "precommit tool_ok False ?s2 example_world
     = precommit_commands tool_ok ?s2 example_world"
    and r6: "list_all is_invoke
     (new_events example_world (snd (precommit tool_ok False ?s2 example_world)))"
    and r7: "\<not> list_ex is_write
     (new_events example_world (snd (precommit tool_ok False ?s2 example_world)))"
    by blast+
  from a b r1 e r2 f r3 r4 g r5 r6 r7 show ?thesis by (intro conjI) assumption+
qed

end
